theory Spec2Isabelle
  imports Main "HOL-Library.AList"
begin

section \<open>Python values, dictionaries and exceptions\<close>

text \<open>
  The values that travel through the executor's dictionaries (run configuration, cluster
  options, decoded resource requirements). A Python \<open>dict\<close> with string keys is an
  association list in insertion order: \<open>d[k] = v\<close> is \<^const>\<open>AList.update\<close> (replace
  in place, or append), \<open>d.get(k)\<close> is \<^const>\<open>map_of\<close> and \<open>k in d\<close> is
  \<open>map_of d k \<noteq> None\<close>. A dictionary that arrives from outside has distinct keys.
\<close>

datatype pyvalue =
    PyNone
  | PyBool bool
  | PyInt int
  | PyStr string
  | PyList "pyvalue list"
  | PyDict "(string \<times> pyvalue) list"

type_synonym pydict = "(string \<times> pyvalue) list"

text \<open>Every \<open>raise\<close> of the module is a value; the string is the message or the culprit.\<close>

datatype error =
    AttributeError string
  | CheckError string
  | ParameterCheckError string
  | ValueError string
  | KeyError string
  | JSONDecodeError string
  | ImportError string
  | OSError string
  | RemoteError string

section \<open>Resource requirements of a step\<close>

definition DASK_RESOURCE_REQUIREMENTS_KEY :: string where
  "DASK_RESOURCE_REQUIREMENTS_KEY = ''dagster-dask/resource_requirements''"

text \<open>
  \<open>get_dask_resource_requirements(tags)\<close>. The tags are a \<open>frozentags\<close> (strings to
  strings), which is what \<open>check.inst_param\<close> asserts. The decoder \<open>seven.json.loads\<close>
  belongs to the standard library and is a parameter: it gives the value that a payload
  decodes to, and \<open>None\<close> for a malformed payload, on which it raises its decoding error.
\<close>

definition get_dask_resource_requirements ::
  "(string \<Rightarrow> pyvalue option) \<Rightarrow> (string \<times> string) list \<Rightarrow> error + pyvalue" where
  "get_dask_resource_requirements loads step_tags =
     (case map_of step_tags DASK_RESOURCE_REQUIREMENTS_KEY of
        Some req_str \<Rightarrow>
          (case loads req_str of
             None \<Rightarrow> Inl (JSONDecodeError req_str)
           | Some payload \<Rightarrow> Inr payload)
      | None \<Rightarrow> Inr (PyDict []))"

section \<open>The executor and its cluster options\<close>

record dask_executor =
  cluster_type :: string
  cluster_configuration :: pydict

text \<open>
  Modelled from the spec: \<open>dagster.check\<close> is not among the source files. As the call
  sites say, \<open>opt_str_param(x, name, default)\<close> returns the default for \<open>None\<close> and the
  string otherwise, and \<open>opt_dict_param(x, name)\<close> returns the empty dict for \<open>None\<close>.
\<close>

definition opt_str_param :: "string option \<Rightarrow> string \<Rightarrow> string" where
  "opt_str_param x dflt = (case x of None \<Rightarrow> dflt | Some s \<Rightarrow> s)"

definition opt_dict_param :: "pydict option \<Rightarrow> pydict" where
  "opt_dict_param x = (case x of None \<Rightarrow> [] | Some d \<Rightarrow> d)"

text \<open>\<open>DaskExecutor.__init__\<close>.\<close>

definition DaskExecutor :: "string option \<Rightarrow> pydict option \<Rightarrow> dask_executor" where
  "DaskExecutor ct cc =
     \<lparr>cluster_type = opt_str_param ct ''local'',
      cluster_configuration = opt_dict_param cc\<rparr>"

text \<open>
  \<open>build_dict\<close>, in the source's three stages. \<open>merged_options\<close> is \<open>dask_cfg\<close> after
  the loop over the user's items; \<open>build_dict\<close> then adds the local cluster's argument.
\<close>

definition base_options :: "dask_executor \<Rightarrow> string \<Rightarrow> pydict" where
  "base_options self pipeline_name =
     (if cluster_type self \<in> set [''yarn'', ''kube'', ''pbs'']
      then [(''name'', PyStr pipeline_name)]
      else [])"

definition merged_options :: "dask_executor \<Rightarrow> string \<Rightarrow> pydict" where
  "merged_options self pipeline_name =
     (if cluster_configuration self \<noteq> []
      then fold (\<lambda>(k, v) dask_cfg. AList.update k v dask_cfg)
             (cluster_configuration self) (base_options self pipeline_name)
      else base_options self pipeline_name)"

definition build_dict :: "dask_executor \<Rightarrow> string \<Rightarrow> pydict" where
  "build_dict self pipeline_name =
     (let dask_cfg = merged_options self pipeline_name in
      if cluster_type self = ''local'' \<and> map_of dask_cfg ''address'' = None
      then AList.update ''threads_per_worker'' (PyInt 1) dask_cfg
      else dask_cfg)"

section \<open>The execution plan\<close>

text \<open>
  What \<open>execute\<close> reads of a step: its key, the dependency keys of each of its inputs,
  and its tags. The plan is the list of levels that \<open>execution_step_levels()\<close> returns.
\<close>

record step_input =
  dependency_keys :: "string list"

record execution_step =
  key :: string
  step_inputs :: "step_input list"
  tags :: "(string \<times> string) list"

definition step_dependency_keys :: "execution_step \<Rightarrow> string list" where
  "step_dependency_keys step = concat (map dependency_keys (step_inputs step))"

text \<open>
  Modelled from the spec: \<open>ExecutionPlan\<close> is not among the source files. Its invariant
  is that a step's dependency keys name only steps of strictly earlier levels, and that a
  step's key is unique in the plan.
\<close>

fun valid_levels :: "string list \<Rightarrow> execution_step list list \<Rightarrow> bool" where
  "valid_levels earlier [] = True"
| "valid_levels earlier (step_level # step_levels) =
     ((\<forall>step \<in> set step_level. set (step_dependency_keys step) \<subseteq> set earlier) \<and>
      valid_levels (earlier @ map key step_level) step_levels)"

definition valid_plan :: "execution_step list list \<Rightarrow> bool" where
  "valid_plan step_levels = valid_levels [] step_levels"

definition unique_step_keys :: "execution_step list list \<Rightarrow> bool" where
  "unique_step_keys step_levels = distinct (map key (concat step_levels))"

section \<open>The run, the remote request and the futures\<close>

text \<open>
  What \<open>execute\<close> reads of the pipeline context. That the context and the plan are
  instances of their classes (\<open>check.inst_param\<close>) holds by the types of the arguments.
  The executor of the context is an object of any executor class: a \<open>DaskExecutor\<close>,
  or another one, of which the model keeps the name.
\<close>

datatype executor_object = DaskExecutorObject dask_executor | OtherExecutor string

record pipeline_context =
  executor :: executor_object
  run_config :: pydict
  instance_is_persistent :: bool
  system_storage_is_persistent :: bool
  pipeline_def_name :: string
  repository_name :: string
  mode_name :: string
  run_id :: string

text \<open>The \<open>executionParams\<close> of the request that one step's task carries.\<close>

record execution_params =
  pipelineName :: string
  repositoryName :: string
  repositoryLocationName :: string
  runConfigData :: pydict
  mode :: string
  runId :: string
  stepKeys :: "string list"

text \<open>
  A future is what \<open>client.submit\<close> was given: the task's key, the request, the futures
  it has to wait for and the resources it asks for. The workspace and the instance
  reference are the same for every step of a run.
\<close>

datatype future =
  Future (future_key: string) (future_variables: execution_params)
    (future_dependencies: "future list") (future_resources: pyvalue)

datatype dagster_event = DagsterEvent string string

text \<open>
  What lies outside the module: the JSON decoder (\<open>None\<close> on a malformed payload), the
  order in which the cluster completes the futures, and what each future resolves to
  (\<open>Inl\<close>: \<open>future.result()\<close> raises). The results are events by type, which is what
  \<open>check.inst\<close> asserts. Provisioning can fail: \<open>cluster_raises\<close> is what the import
  of the cluster class or its constructor raises in this run, and \<open>client_raises\<close> what
  \<open>Client(cluster)\<close> raises, if anything.
\<close>

record environment =
  cluster_raises :: "error option"
  client_raises :: "error option"
  json_loads :: "string \<Rightarrow> pyvalue option"
  as_completed :: "future list \<Rightarrow> future list"
  future_result :: "future \<Rightarrow> error + dagster_event list"

text \<open>
  What a run does that can be seen from outside, in order. \<open>Provision\<close> is a cluster
  constructed, \<open>ClientEnter\<close> and \<open>ClientExit\<close> are the two ends of the \<open>with\<close> block
  over the client, and \<open>CloseCluster\<close> is a call of the module that closes the cluster
  (what the client's exit does to the cluster inside dask belongs to \<open>ClientExit\<close>).
\<close>

datatype cluster_class = LocalCluster | YarnCluster | SSHCluster | PBSCluster | KubeCluster

datatype action =
    Provision cluster_class pydict
  | ClientEnter
  | Submit future
  | Await future
  | Yield dagster_event
  | ClientExit
  | CloseCluster

section \<open>The checks before provisioning\<close>

text \<open>
  The guard of lines 117 to 121: \<open>check.param_invariant\<close> raises a parameter check error
  (a kind of \<open>CheckError\<close>) unless the context's executor is a \<open>DaskExecutor\<close>. The
  error carries the name of the executor's class.
\<close>

definition executor_check :: "pipeline_context \<Rightarrow> error option" where
  "executor_check ctx =
     (case executor ctx of
        DaskExecutorObject dask \<Rightarrow> None
      | OtherExecutor name \<Rightarrow> Some (ParameterCheckError name))"

text \<open>
  \<open>storage = run_config.get('storage')\<close> is \<open>None\<close> when the section is missing, and
  \<open>storage.keys()\<close> then raises \<open>AttributeError\<close>, as it does on a value that is not
  a dict. An empty \<open>keys()\<close> is falsy.
\<close>

definition storage_checks :: "pipeline_context \<Rightarrow> error option" where
  "storage_checks ctx =
     (case map_of (run_config ctx) ''storage'' of
        Some (PyDict storage) \<Rightarrow>
          if storage = []
          then Some (CheckError ''Must specify storage to use Dask execution'')
          else if \<not> instance_is_persistent ctx
          then Some (CheckError ''Dask execution requires a persistent DagsterInstance'')
          else if \<not> system_storage_is_persistent ctx
          then Some (CheckError ''Cannot use in-memory storage with Dask, use filesystem, S3, or GCS'')
          else None
      | _ \<Rightarrow> Some (AttributeError ''keys''))"

text \<open>The guard first, then the checks of the storage, as lines 115 to 136 have them.\<close>

definition checks :: "pipeline_context \<Rightarrow> error option" where
  "checks ctx =
     (case executor_check ctx of
        Some e \<Rightarrow> Some e
      | None \<Rightarrow> storage_checks ctx)"

section \<open>Provisioning\<close>

text \<open>
  One branch of the chain: the class is imported and its constructor is called with the
  options. Either may raise, and then there is no cluster.
\<close>

definition construct :: "environment \<Rightarrow> cluster_class \<Rightarrow> pydict \<Rightarrow> error + action" where
  "construct env cls options =
     (case cluster_raises env of
        Some e \<Rightarrow> Inl e
      | None \<Rightarrow> Inr (Provision cls options))"

text \<open>The chain of \<open>if\<close>/\<open>elif\<close> over the cluster type; the error carries the type.\<close>

definition provision_cluster :: "environment \<Rightarrow> dask_executor \<Rightarrow> string \<Rightarrow> error + action" where
  "provision_cluster env self pipeline_name =
     (if cluster_type self = ''local''
      then construct env LocalCluster (build_dict self pipeline_name)
      else if cluster_type self = ''yarn''
      then construct env YarnCluster (build_dict self pipeline_name)
      else if cluster_type self = ''ssh''
      then construct env SSHCluster (build_dict self pipeline_name)
      else if cluster_type self = ''pbs''
      then construct env PBSCluster (build_dict self pipeline_name)
      else if cluster_type self = ''kube''
      then construct env KubeCluster (build_dict self pipeline_name)
      else Inl (ValueError (cluster_type self)))"

section \<open>Submission\<close>

record submission =
  execution_futures :: "future list"
  execution_futures_dict :: "(string \<times> future) list"

text \<open>The inner loop over one input's dependency keys: a missing key raises.\<close>

fun append_dependencies ::
  "(string \<times> future) list \<Rightarrow> string list \<Rightarrow> future list \<Rightarrow> error + future list" where
  "append_dependencies d [] dependencies = Inr dependencies"
| "append_dependencies d (k # ks) dependencies =
     (case map_of d k of
        None \<Rightarrow> Inl (KeyError k)
      | Some future \<Rightarrow> append_dependencies d ks (dependencies @ [future]))"

fun collect_dependencies ::
  "(string \<times> future) list \<Rightarrow> step_input list \<Rightarrow> future list \<Rightarrow> error + future list" where
  "collect_dependencies d [] dependencies = Inr dependencies"
| "collect_dependencies d (step_input # rest) dependencies =
     (case append_dependencies d (dependency_keys step_input) dependencies of
        Inl e \<Rightarrow> Inl e
      | Inr dependencies' \<Rightarrow> collect_dependencies d rest dependencies')"

definition dask_task_name :: "string \<Rightarrow> string \<Rightarrow> string" where
  "dask_task_name name step_key = name @ ''.'' @ step_key"

definition variables :: "pipeline_context \<Rightarrow> execution_step \<Rightarrow> execution_params" where
  "variables ctx step =
     \<lparr>pipelineName = pipeline_def_name ctx,
      repositoryName = repository_name ctx,
      repositoryLocationName = ''<<in_process>>'',
      runConfigData =
        AList.update ''execution'' (PyDict [(''in_process'', PyDict [])]) (run_config ctx),
      mode = mode_name ctx,
      runId = run_id ctx,
      stepKeys = [key step]\<rparr>"

text \<open>
  The body of the loop for one step. The state that comes back with an error is the one
  before the step: nothing was submitted for it.
\<close>

definition submit_step ::
  "environment \<Rightarrow> pipeline_context \<Rightarrow> execution_step \<Rightarrow> submission \<Rightarrow> submission \<times> error option" where
  "submit_step env ctx step st =
     (case collect_dependencies (execution_futures_dict st) (step_inputs step) [] of
        Inl e \<Rightarrow> (st, Some e)
      | Inr dependencies \<Rightarrow>
          (case get_dask_resource_requirements (json_loads env) (tags step) of
             Inl e \<Rightarrow> (st, Some e)
           | Inr resources \<Rightarrow>
               (let future = Future (dask_task_name (pipeline_def_name ctx) (key step))
                               (variables ctx step) dependencies resources
                in (\<lparr>execution_futures = execution_futures st @ [future],
                      execution_futures_dict =
                        AList.update (key step) future (execution_futures_dict st)\<rparr>,
                    None))))"

fun submit_level ::
  "environment \<Rightarrow> pipeline_context \<Rightarrow> execution_step list \<Rightarrow> submission \<Rightarrow> submission \<times> error option" where
  "submit_level env ctx [] st = (st, None)"
| "submit_level env ctx (step # steps) st =
     (case submit_step env ctx step st of
        (st', Some e) \<Rightarrow> (st', Some e)
      | (st', None) \<Rightarrow> submit_level env ctx steps st')"

fun submit_levels ::
  "environment \<Rightarrow> pipeline_context \<Rightarrow> execution_step list list \<Rightarrow> submission \<Rightarrow> submission \<times> error option" where
  "submit_levels env ctx [] st = (st, None)"
| "submit_levels env ctx (step_level # step_levels) st =
     (case submit_level env ctx step_level st of
        (st', Some e) \<Rightarrow> (st', Some e)
      | (st', None) \<Rightarrow> submit_levels env ctx step_levels st')"

definition no_futures :: submission where
  "no_futures = \<lparr>execution_futures = [], execution_futures_dict = []\<rparr>"

section \<open>Draining the futures\<close>

text \<open>
  The loop over \<open>as_completed\<close>, on the futures in the order the cluster completes them.
  The first \<open>future.result()\<close> that raises ends the loop.
\<close>

fun drain :: "environment \<Rightarrow> future list \<Rightarrow> action list \<times> error option" where
  "drain env [] = ([], None)"
| "drain env (future # futures) =
     (case future_result env future of
        Inl e \<Rightarrow> ([Await future], Some e)
      | Inr step_events \<Rightarrow>
          (let (acts, out) = drain env futures
           in (Await future # map Yield step_events @ acts, out)))"

section \<open>The run\<close>

text \<open>
  The \<open>with\<close> statement. When \<open>Client(cluster)\<close> raises, the block is not entered.
  Otherwise the client is entered, the steps are submitted, the futures are drained, and
  the client is left, whatever was raised inside. Nothing in the statement, or after it,
  closes the cluster.
\<close>

definition with_client ::
  "environment \<Rightarrow> pipeline_context \<Rightarrow> execution_step list list \<Rightarrow> action list \<times> error option" where
  "with_client env ctx step_levels =
     (case client_raises env of
        Some e \<Rightarrow> ([], Some e)
      | None \<Rightarrow>
          (case submit_levels env ctx step_levels no_futures of
             (st, Some e) \<Rightarrow>
               (ClientEnter # map Submit (execution_futures st) @ [ClientExit], Some e)
           | (st, None) \<Rightarrow>
               (let (acts, out) = drain env (as_completed env (execution_futures st))
                in (ClientEnter # map Submit (execution_futures st) @ acts @ [ClientExit],
                    out))))"

text \<open>
  \<open>DaskExecutor.execute\<close>, run to its end by the caller: what it did, and the exception
  it ended with, if any.
\<close>

definition execute ::
  "environment \<Rightarrow> dask_executor \<Rightarrow> pipeline_context \<Rightarrow> execution_step list list \<Rightarrow>
   action list \<times> error option" where
  "execute env self ctx step_levels =
     (case checks ctx of
        Some e \<Rightarrow> ([], Some e)
      | None \<Rightarrow>
          (case provision_cluster env self (pipeline_def_name ctx) of
             Inl e \<Rightarrow> ([], Some e)
           | Inr cluster \<Rightarrow>
               (let (acts, out) = with_client env ctx step_levels
                in (cluster # acts, out))))"

section \<open>Predicates of the properties\<close>

text \<open>The events a future resolved to; none when \<open>future.result()\<close> raises.\<close>

definition events_of :: "environment \<Rightarrow> future \<Rightarrow> dagster_event list" where
  "events_of env future =
     (case future_result env future of Inl e \<Rightarrow> [] | Inr step_events \<Rightarrow> step_events)"

text \<open>
  The dependency keys of each step of a list are among the known keys and the keys of the
  steps before it.
\<close>

fun deps_known :: "string set \<Rightarrow> execution_step list \<Rightarrow> bool" where
  "deps_known known [] = True"
| "deps_known known (step # steps) =
     (set (step_dependency_keys step) \<subseteq> known \<and> deps_known (insert (key step) known) steps)"

text \<open>
  The futures are those of the first steps of a list, in the list's order: each carries its
  step's task name and key, the futures it depends on were created before it, and they are
  the futures of the step's dependency keys, in the order of the keys.
\<close>

fun submitted_in_order ::
  "string \<Rightarrow> future list \<Rightarrow> execution_step list \<Rightarrow> future list \<Rightarrow> bool" where
  "submitted_in_order name earlier steps [] = True"
| "submitted_in_order name earlier [] (future # futures) = False"
| "submitted_in_order name earlier (step # steps) (future # futures) =
     (future_key future = dask_task_name name (key step) \<and>
      stepKeys (future_variables future) = [key step] \<and>
      set (future_dependencies future) \<subseteq> set earlier \<and>
      map (\<lambda>f. stepKeys (future_variables f)) (future_dependencies future) =
        map (\<lambda>k. [k]) (step_dependency_keys step) \<and>
      submitted_in_order name (earlier @ [future]) steps futures)"

text \<open>
  The invariant of the submission loop: what the dictionary holds under a key is a future
  of the worklist, created for the step of that key.
\<close>

definition futures_recorded :: "submission \<Rightarrow> bool" where
  "futures_recorded st =
     (\<forall>(k, f) \<in> set (execution_futures_dict st).
        f \<in> set (execution_futures st) \<and> stepKeys (future_variables f) = [k])"

text \<open>The five cluster types that \<open>execute\<close> knows.\<close>

definition cluster_types :: "string list" where
  "cluster_types = [''local'', ''yarn'', ''ssh'', ''pbs'', ''kube'']"

section \<open>Example inputs\<close>

text \<open>A decoder that knows two payloads, for evaluating the functions above.\<close>

definition example_loads :: "string \<Rightarrow> pyvalue option" where
  "example_loads s =
     (if s = ''{}'' then Some (PyDict [])
      else if s = ''{\"GPU\": 1}'' then Some (PyDict [(''GPU'', PyInt 1)])
      else None)"

text \<open>
  A run of the default executor on persistent storage, and the plan of three steps: \<open>A\<close> and \<open>B\<close> on the first
  level, \<open>C\<close> on the second, depending on both.
\<close>

definition example_context :: pipeline_context where
  "example_context =
     \<lparr>executor = DaskExecutorObject (DaskExecutor None None),
      run_config = [(''storage'', PyDict [(''filesystem'', PyDict [])])],
      instance_is_persistent = True,
      system_storage_is_persistent = True,
      pipeline_def_name = ''pipeline'',
      repository_name = ''repo'',
      mode_name = ''default'',
      run_id = ''run-1''\<rparr>"

definition step_A :: execution_step where
  "step_A = \<lparr>key = ''A'', step_inputs = [], tags = []\<rparr>"

definition step_B :: execution_step where
  "step_B = \<lparr>key = ''B'', step_inputs = [], tags = []\<rparr>"

definition step_C :: execution_step where
  "step_C =
     \<lparr>key = ''C'',
      step_inputs = [\<lparr>dependency_keys = [''A'']\<rparr>, \<lparr>dependency_keys = [''B'']\<rparr>],
      tags = [(''dagster-dask/resource_requirements'', ''{\"GPU\": 1}'')]\<rparr>"

definition example_plan :: "execution_step list list" where
  "example_plan = [[step_A, step_B], [step_C]]"

text \<open>The futures that the submission of this plan creates.\<close>

definition future_A :: future where
  "future_A = Future ''pipeline.A'' (variables example_context step_A) [] (PyDict [])"

definition future_B :: future where
  "future_B = Future ''pipeline.B'' (variables example_context step_B) [] (PyDict [])"

definition future_C :: future where
  "future_C =
     Future ''pipeline.C'' (variables example_context step_C) [future_A, future_B]
       (PyDict [(''GPU'', PyInt 1)])"

text \<open>
  A cluster that comes up and completes the futures in the order of submission; the task
  of \<open>B\<close> fails, the others yield one event each.
\<close>

definition example_env :: environment where
  "example_env =
     \<lparr>cluster_raises = None,
      client_raises = None,
      json_loads = example_loads,
      as_completed = (\<lambda>futures. futures),
      future_result = (\<lambda>future.
        if future_key future = ''pipeline.B'' then Inl (RemoteError ''B failed'')
        else Inr [DagsterEvent ''STEP_SUCCESS'' (concat (stepKeys (future_variables future)))])\<rparr>"

text \<open>The same cluster with every task succeeding.\<close>

definition example_env_ok :: environment where
  "example_env_ok =
     \<lparr>cluster_raises = None,
      client_raises = None,
      json_loads = example_loads,
      as_completed = (\<lambda>futures. futures),
      future_result = (\<lambda>future.
        Inr [DagsterEvent ''STEP_SUCCESS'' (concat (stepKeys (future_variables future)))])\<rparr>"

section \<open>Properties of the option merge\<close>

lemma fold_update_keys:
  "fst ` set (fold (\<lambda>(k, v) d. AList.update k v d) cfg base) = fst ` set base \<union> fst ` set cfg"
proof (induction cfg arbitrary: base)
  case Nil
  then show ?case by simp
next
  case (Cons a cfg)
  obtain k v where a: "a = (k, v)" by (cases a)
  have "fst ` set (fold (\<lambda>(k, v) d. AList.update k v d) (a # cfg) base) =
        fst ` set (AList.update k v base) \<union> fst ` set cfg"
    using Cons [of "AList.update k v base"] a by simp
  also have "\<dots> = insert k (fst ` set base) \<union> fst ` set cfg"
    by (simp add: AList.dom_update)
  also have "\<dots> = fst ` set base \<union> fst ` set (a # cfg)"
    using a by auto
  finally show ?case .
qed

lemma fold_update_keep:
  "k \<notin> fst ` set cfg \<Longrightarrow>
   map_of (fold (\<lambda>(k, v) d. AList.update k v d) cfg base) k = map_of base k"
  by (induction cfg arbitrary: base) (auto simp: AList.update_conv')

lemma fold_update_user:
  "distinct (map fst cfg) \<Longrightarrow> (k, v) \<in> set cfg \<Longrightarrow>
   map_of (fold (\<lambda>(k, v) d. AList.update k v d) cfg base) k = Some v"
proof (induction cfg arbitrary: base)
  case Nil
  then show ?case by simp
next
  case (Cons a cfg)
  obtain k' v' where a: "a = (k', v')" by (cases a)
  show ?case
  proof (cases "(k, v) \<in> set cfg")
    case True
    with Cons show ?thesis by simp
  next
    case False
    with Cons.prems a have kv: "k' = k" "v' = v" by auto
    from Cons.prems a kv have "k \<notin> fst ` set cfg" by auto
    then show ?thesis
      using a kv by (simp add: fold_update_keep AList.update_conv')
  qed
qed

lemma merged_options_user:
  assumes "distinct (map fst (cluster_configuration self))"
    and "(k, v) \<in> set (cluster_configuration self)"
  shows "map_of (merged_options self pipeline_name) k = Some v"
proof -
  from assms(2) have "cluster_configuration self \<noteq> []" by auto
  then show ?thesis
    using assms by (simp add: merged_options_def fold_update_user)
qed

lemma merged_options_keys:
  "fst ` set (merged_options self pipeline_name) =
   fst ` set (base_options self pipeline_name) \<union> fst ` set (cluster_configuration self)"
  by (simp add: merged_options_def fold_update_keys)

lemma merged_options_local:
  "cluster_type self = ''local'' \<Longrightarrow>
   fst ` set (merged_options self pipeline_name) = fst ` set (cluster_configuration self)"
  by (simp add: merged_options_keys base_options_def)

section \<open>Properties of the dependency lookup\<close>

lemma append_dependencies_Inr:
  "append_dependencies d ks acc = Inr r \<Longrightarrow>
   \<exists>fs. r = acc @ fs \<and> map (map_of d) ks = map Some fs"
proof (induction ks arbitrary: acc)
  case Nil
  then show ?case by simp
next
  case (Cons k ks)
  from Cons.prems obtain f where f: "map_of d k = Some f"
    and rest: "append_dependencies d ks (acc @ [f]) = Inr r"
    by (auto split: option.splits)
  from Cons.IH [OF rest] obtain fs where "r = (acc @ [f]) @ fs" "map (map_of d) ks = map Some fs"
    by blast
  with f have "r = acc @ (f # fs) \<and> map (map_of d) (k # ks) = map Some (f # fs)" by simp
  then show ?case by blast
qed

lemma append_dependencies_Inl:
  "append_dependencies d ks acc = Inl e \<Longrightarrow> \<exists>k \<in> set ks. map_of d k = None \<and> e = KeyError k"
  by (induction ks arbitrary: acc) (auto split: option.splits)

lemma collect_dependencies_Inr:
  "collect_dependencies d inputs acc = Inr r \<Longrightarrow>
   \<exists>fs. r = acc @ fs \<and> map (map_of d) (concat (map dependency_keys inputs)) = map Some fs"
proof (induction inputs arbitrary: acc)
  case Nil
  then show ?case by simp
next
  case (Cons i inputs)
  from Cons.prems obtain r1 where r1: "append_dependencies d (dependency_keys i) acc = Inr r1"
    and rest: "collect_dependencies d inputs r1 = Inr r"
    by (auto split: sum.splits)
  from append_dependencies_Inr [OF r1] obtain fs1
    where fs1: "r1 = acc @ fs1" "map (map_of d) (dependency_keys i) = map Some fs1" by blast
  from Cons.IH [OF rest] obtain fs2
    where fs2: "r = r1 @ fs2" "map (map_of d) (concat (map dependency_keys inputs)) = map Some fs2"
    by blast
  from fs1 fs2 have "r = acc @ (fs1 @ fs2) \<and>
      map (map_of d) (concat (map dependency_keys (i # inputs))) = map Some (fs1 @ fs2)"
    by simp
  then show ?case by blast
qed

lemma collect_dependencies_Inl:
  "collect_dependencies d inputs acc = Inl e \<Longrightarrow>
   \<exists>k \<in> set (concat (map dependency_keys inputs)). map_of d k = None \<and> e = KeyError k"
proof (induction inputs arbitrary: acc)
  case Nil
  then show ?case by simp
next
  case (Cons i inputs)
  show ?case
  proof (cases "append_dependencies d (dependency_keys i) acc")
    case (Inl e')
    with Cons.prems have "e' = e" by simp
    with Inl append_dependencies_Inl [of d "dependency_keys i" acc e] show ?thesis by auto
  next
    case (Inr r1)
    with Cons.prems have "collect_dependencies d inputs r1 = Inl e" by simp
    from Cons.IH [OF this] show ?thesis by auto
  qed
qed

section \<open>One step of the submission loop\<close>

lemma submit_step_cases:
  assumes "submit_step env ctx step st = (st', err)"
  shows "(\<exists>e. err = Some e \<and> st' = st \<and>
            ((\<exists>k \<in> set (step_dependency_keys step).
                map_of (execution_futures_dict st) k = None \<and> e = KeyError k) \<or>
             get_dask_resource_requirements (json_loads env) (tags step) = Inl e)) \<or>
         (\<exists>deps res.
            err = None \<and>
            map (map_of (execution_futures_dict st)) (step_dependency_keys step) = map Some deps \<and>
            get_dask_resource_requirements (json_loads env) (tags step) = Inr res \<and>
            st' = \<lparr>execution_futures = execution_futures st @
                      [Future (dask_task_name (pipeline_def_name ctx) (key step))
                         (variables ctx step) deps res],
                    execution_futures_dict =
                      AList.update (key step)
                        (Future (dask_task_name (pipeline_def_name ctx) (key step))
                           (variables ctx step) deps res)
                        (execution_futures_dict st)\<rparr>)"
proof (cases "collect_dependencies (execution_futures_dict st) (step_inputs step) []")
  case (Inl e)
  with assms have "err = Some e" "st' = st" by (simp_all add: submit_step_def)
  with collect_dependencies_Inl [OF Inl] show ?thesis
    by (auto simp: step_dependency_keys_def)
next
  case (Inr deps)
  from collect_dependencies_Inr [OF Inr]
  have deps: "map (map_of (execution_futures_dict st)) (step_dependency_keys step) = map Some deps"
    by (simp add: step_dependency_keys_def)
  show ?thesis
  proof (cases "get_dask_resource_requirements (json_loads env) (tags step)")
    case (Inl e)
    with Inr assms have "err = Some e" "st' = st" by (simp_all add: submit_step_def)
    with Inl show ?thesis by simp
  next
    case res: (Inr res)
    with Inr assms deps show ?thesis
      by (auto simp: submit_step_def Let_def)
  qed
qed

section \<open>The loops\<close>

lemma submit_level_append:
  "submit_level env ctx (xs @ ys) st =
     (case submit_level env ctx xs st of
        (st', Some e) \<Rightarrow> (st', Some e)
      | (st', None) \<Rightarrow> submit_level env ctx ys st')"
  by (induction xs arbitrary: st) (auto split: prod.splits option.splits)

lemma submit_levels_concat:
  "submit_levels env ctx step_levels st = submit_level env ctx (concat step_levels) st"
  by (induction step_levels arbitrary: st)
    (auto simp: submit_level_append split: prod.splits option.splits)

lemma deps_known_append:
  "\<forall>s \<in> set xs. set (step_dependency_keys s) \<subseteq> K \<Longrightarrow>
   deps_known (K \<union> key ` set xs) ys \<Longrightarrow> deps_known K (xs @ ys)"
proof (induction xs arbitrary: K)
  case Nil
  then show ?case by simp
next
  case (Cons s xs)
  have "deps_known (insert (key s) K) (xs @ ys)"
  proof (rule Cons.IH)
    show "\<forall>s' \<in> set xs. set (step_dependency_keys s') \<subseteq> insert (key s) K"
      using Cons.prems(1) by auto
    have "insert (key s) K \<union> key ` set xs = K \<union> key ` set (s # xs)" by auto
    with Cons.prems(2) show "deps_known (insert (key s) K \<union> key ` set xs) ys" by simp
  qed
  with Cons.prems(1) show ?case by simp
qed

lemma valid_levels_deps_known:
  "valid_levels earlier step_levels \<Longrightarrow> deps_known (set earlier) (concat step_levels)"
proof (induction step_levels arbitrary: earlier)
  case Nil
  then show ?case by simp
next
  case (Cons l ls)
  from Cons.prems have here: "\<forall>s \<in> set l. set (step_dependency_keys s) \<subseteq> set earlier"
    and rest: "valid_levels (earlier @ map key l) ls" by auto
  from Cons.IH [OF rest] have "deps_known (set earlier \<union> key ` set l) (concat ls)" by simp
  with here show ?case by (simp add: deps_known_append)
qed

section \<open>What the loop keeps\<close>

lemma update_set_subset: "set (AList.update k v al) \<subseteq> insert (k, v) (set al)"
  by (induction al) auto

lemma update_fresh: "k \<notin> fst ` set al \<Longrightarrow> AList.update k v al = al @ [(k, v)]"
  by (induction al) auto

lemma requirements_error:
  "get_dask_resource_requirements loads step_tags = Inl e \<Longrightarrow> \<exists>s. e = JSONDecodeError s"
  by (auto simp: get_dask_resource_requirements_def split: option.splits)

lemma dependencies_from_dict:
  "map (map_of d) ks = map Some deps \<Longrightarrow> list_all2 (\<lambda>k f. (k, f) \<in> set d) ks deps"
proof (induction ks arbitrary: deps)
  case Nil
  then show ?case by simp
next
  case (Cons k ks)
  then obtain f deps' where deps: "deps = f # deps'" by (cases deps) auto
  with Cons.prems have "map_of d k = Some f" "map (map_of d) ks = map Some deps'" by auto
  with Cons.IH deps show ?case by (auto dest: map_of_SomeD)
qed

lemma recorded_dependencies:
  assumes "futures_recorded st"
    and "map (map_of (execution_futures_dict st)) ks = map Some deps"
  shows "set deps \<subseteq> set (execution_futures st) \<and>
         map (\<lambda>f. stepKeys (future_variables f)) deps = map (\<lambda>k. [k]) ks"
proof -
  from dependencies_from_dict [OF assms(2)]
  have "list_all2 (\<lambda>k f. (k, f) \<in> set (execution_futures_dict st)) ks deps" .
  then have "list_all2 (\<lambda>k f. f \<in> set (execution_futures st) \<and>
      stepKeys (future_variables f) = [k]) ks deps"
    using assms(1) by (auto simp: futures_recorded_def elim!: list_all2_mono)
  then show ?thesis
    by (induction ks deps rule: list_all2_induct) auto
qed

lemma submit_level_in_order:
  assumes "futures_recorded st"
    and "submit_level env ctx steps st = (st', err)"
  shows "futures_recorded st' \<and>
         (\<exists>new. execution_futures st' = execution_futures st @ new \<and>
            submitted_in_order (pipeline_def_name ctx) (execution_futures st) steps new \<and>
            (err = None \<longrightarrow> length new = length steps))"
  using assms
proof (induction steps arbitrary: st)
  case Nil
  then show ?case by simp
next
  case (Cons s steps)
  obtain st1 e1 where step: "submit_step env ctx s st = (st1, e1)"
    by (cases "submit_step env ctx s st")
  show ?case
  proof (cases e1)
    case (Some e)
    with submit_step_cases [OF step] have "st1 = st" by auto
    with Some step Cons.prems have "st' = st" "err = Some e" by simp_all
    with Cons.prems(1) show ?thesis by simp
  next
    case None
    with submit_step_cases [OF step] obtain deps res
      where deps: "map (map_of (execution_futures_dict st)) (step_dependency_keys s) = map Some deps"
        and st1: "st1 = \<lparr>execution_futures = execution_futures st @
                      [Future (dask_task_name (pipeline_def_name ctx) (key s))
                         (variables ctx s) deps res],
                    execution_futures_dict =
                      AList.update (key s)
                        (Future (dask_task_name (pipeline_def_name ctx) (key s))
                           (variables ctx s) deps res)
                        (execution_futures_dict st)\<rparr>"
      by auto
    let ?f = "Future (dask_task_name (pipeline_def_name ctx) (key s)) (variables ctx s) deps res"
    have rec1: "futures_recorded st1"
      using Cons.prems(1) update_set_subset [of "key s" ?f "execution_futures_dict st"]
      by (auto simp: futures_recorded_def st1 variables_def)
    from step None Cons.prems(2) have rest: "submit_level env ctx steps st1 = (st', err)" by simp
    from Cons.IH [OF rec1 rest] obtain new
      where rec': "futures_recorded st'"
        and new: "execution_futures st' = execution_futures st1 @ new"
        and ord: "submitted_in_order (pipeline_def_name ctx) (execution_futures st1) steps new"
        and len: "err = None \<longrightarrow> length new = length steps"
      by blast
    from recorded_dependencies [OF Cons.prems(1) deps]
    have here: "set deps \<subseteq> set (execution_futures st)"
      "map (\<lambda>f. stepKeys (future_variables f)) deps = map (\<lambda>k. [k]) (step_dependency_keys s)"
      by simp_all
    have "execution_futures st' = execution_futures st @ (?f # new)"
      using new st1 by simp
    moreover have "submitted_in_order (pipeline_def_name ctx) (execution_futures st)
        (s # steps) (?f # new)"
      using ord here st1 by (simp add: variables_def)
    moreover have "err = None \<longrightarrow> length (?f # new) = length (s # steps)"
      using len by simp
    ultimately show ?thesis using rec' by blast
  qed
qed

lemma submit_level_error:
  assumes "deps_known (fst ` set (execution_futures_dict st)) steps"
    and "submit_level env ctx steps st = (st', Some e)"
  shows "\<exists>s \<in> set steps. get_dask_resource_requirements (json_loads env) (tags s) = Inl e"
  using assms
proof (induction steps arbitrary: st)
  case Nil
  then show ?case by simp
next
  case (Cons s steps)
  obtain st1 e1 where step: "submit_step env ctx s st = (st1, e1)"
    by (cases "submit_step env ctx s st")
  from Cons.prems(1) have known: "set (step_dependency_keys s) \<subseteq> fst ` set (execution_futures_dict st)"
    and rest: "deps_known (insert (key s) (fst ` set (execution_futures_dict st))) steps"
    by simp_all
  show ?case
  proof (cases e1)
    case (Some e')
    with step Cons.prems(2) have "e' = e" by simp
    moreover from known have "\<forall>k \<in> set (step_dependency_keys s).
        map_of (execution_futures_dict st) k \<noteq> None"
      by (auto simp: map_of_eq_None_iff)
    ultimately have "get_dask_resource_requirements (json_loads env) (tags s) = Inl e"
      using submit_step_cases [OF step] Some by auto
    then show ?thesis by simp
  next
    case None
    with submit_step_cases [OF step] obtain f
      where st1: "st1 = \<lparr>execution_futures = execution_futures st @ [f],
                       execution_futures_dict = AList.update (key s) f (execution_futures_dict st)\<rparr>"
      by auto
    from st1 rest have "deps_known (fst ` set (execution_futures_dict st1)) steps"
      by (simp add: AList.dom_update)
    moreover from step None Cons.prems(2) have "submit_level env ctx steps st1 = (st', Some e)"
      by simp
    ultimately show ?thesis using Cons.IH by auto
  qed
qed

lemma submit_level_dict:
  assumes "distinct (map key steps)"
    and "key ` set steps \<inter> fst ` set (execution_futures_dict st) = {}"
    and "submit_level env ctx steps st = (st', None)"
  shows "\<exists>new. length new = length steps \<and>
           execution_futures st' = execution_futures st @ new \<and>
           execution_futures_dict st' = execution_futures_dict st @ zip (map key steps) new"
  using assms
proof (induction steps arbitrary: st)
  case Nil
  then show ?case by simp
next
  case (Cons s steps)
  obtain st1 e1 where step: "submit_step env ctx s st = (st1, e1)"
    by (cases "submit_step env ctx s st")
  with Cons.prems(3) have e1: "e1 = None" by (cases e1) auto
  from Cons.prems(2) have fresh: "key s \<notin> fst ` set (execution_futures_dict st)" by auto
  from submit_step_cases [OF step] e1 obtain f
    where st1: "st1 = \<lparr>execution_futures = execution_futures st @ [f],
                       execution_futures_dict = AList.update (key s) f (execution_futures_dict st)\<rparr>"
    by auto
  with fresh have d1: "execution_futures_dict st1 = execution_futures_dict st @ [(key s, f)]"
    by (simp add: update_fresh)
  have "distinct (map key steps)" using Cons.prems(1) by simp
  moreover have "key ` set steps \<inter> fst ` set (execution_futures_dict st1) = {}"
    using Cons.prems(1,2) d1 by auto
  moreover from step e1 Cons.prems(3) have "submit_level env ctx steps st1 = (st', None)" by simp
  ultimately obtain new where new: "length new = length steps"
      "execution_futures st' = execution_futures st1 @ new"
      "execution_futures_dict st' = execution_futures_dict st1 @ zip (map key steps) new"
    using Cons.IH by blast
  have "length (f # new) = length (s # steps) \<and>
      execution_futures st' = execution_futures st @ (f # new) \<and>
      execution_futures_dict st' = execution_futures_dict st @ zip (map key (s # steps)) (f # new)"
    using new st1 d1 by simp
  then show ?case by blast
qed

section \<open>Draining\<close>

lemma drain_finished:
  "\<forall>f \<in> set finished. \<exists>step_events. future_result env f = Inr step_events \<Longrightarrow>
   drain env (finished @ rest) =
     (concat (map (\<lambda>f. Await f # map Yield (events_of env f)) finished) @ fst (drain env rest),
      snd (drain env rest))"
  by (induction finished) (auto simp: events_of_def split: prod.splits)


lemma first_failure:
  assumes "\<exists>f \<in> set futures. \<exists>e. future_result env f = Inl e"
  shows "\<exists>finished failed pending e.
           futures = finished @ failed # pending \<and>
           (\<forall>f \<in> set finished. \<exists>step_events. future_result env f = Inr step_events) \<and>
           future_result env failed = Inl e"
proof -
  from assms obtain f e where "f \<in> set futures" "future_result env f = Inl e"
    by blast
  then have "f \<in> set futures \<and> \<not> (\<exists>step_events. future_result env f = Inr step_events)"
    by simp
  then have "\<exists>f \<in> set futures. \<not> (\<exists>step_events. future_result env f = Inr step_events)"
    by blast
  from split_list_first_prop [OF this] obtain finished failed pending
    where split: "futures = finished @ failed # pending"
      and failed: "\<not> (\<exists>step_events. future_result env failed = Inr step_events)"
      and finished: "\<forall>f \<in> set finished. \<not> \<not> (\<exists>step_events. future_result env f = Inr step_events)"
    by blast
  from failed obtain e where "future_result env failed = Inl e"
    by (cases "future_result env failed") auto
  with split finished show ?thesis by blast
qed

section \<open>The run\<close>

lemma provision_cluster_known:
  "cluster_type self \<in> set cluster_types \<Longrightarrow>
   \<exists>cls. provision_cluster env self name = construct env cls (build_dict self name)"
  by (auto simp: cluster_types_def provision_cluster_def)









lemma execute_storage_missing:
  "executor_check ctx = None \<Longrightarrow> map_of (run_config ctx) ''storage'' = None \<Longrightarrow>
   execute env self ctx step_levels = ([], Some (AttributeError ''keys''))"
  by (simp add: execute_def checks_def storage_checks_def)

lemma execute_storage_present:
  assumes "executor_check ctx = None"
    and "map_of (run_config ctx) ''storage'' = Some (PyDict storage)"
    and "storage = [] \<or> \<not> instance_is_persistent ctx \<or> \<not> system_storage_is_persistent ctx"
  shows "\<exists>msg. execute env self ctx step_levels = ([], Some (CheckError msg))"
  using assms by (auto simp: execute_def checks_def storage_checks_def)



section \<open>The example run\<close>

lemma example_submission:
  "submit_levels example_env example_context example_plan no_futures =
     (\<lparr>execution_futures = [future_A, future_B, future_C],
       execution_futures_dict = [(''A'', future_A), (''B'', future_B), (''C'', future_C)]\<rparr>,
      None)"
  by (simp add: example_plan_def step_A_def step_B_def step_C_def example_env_def
      example_loads_def no_futures_def submit_step_def get_dask_resource_requirements_def
      DASK_RESOURCE_REQUIREMENTS_KEY_def dask_task_name_def example_context_def
      future_A_def future_B_def future_C_def Let_def)

lemma example_results:
  "future_result example_env future_A = Inr [DagsterEvent ''STEP_SUCCESS'' ''A'']"
  "future_result example_env future_B = Inl (RemoteError ''B failed'')"
  "as_completed example_env futures = futures"
  by (simp_all add: example_env_def future_A_def future_B_def variables_def step_A_def)

lemma example_checks:
  "checks example_context = None"
  "provision_cluster example_env (DaskExecutor None None) (pipeline_def_name example_context) =
     Inr (Provision LocalCluster [(''threads_per_worker'', PyInt 1)])"
  "provision_cluster example_env_ok (DaskExecutor None None) (pipeline_def_name example_context) =
     Inr (Provision LocalCluster [(''threads_per_worker'', PyInt 1)])"
  "client_raises example_env = None"
  "client_raises example_env_ok = None"
  by (simp_all add: checks_def executor_check_def storage_checks_def example_context_def
      provision_cluster_def construct_def example_env_def example_env_ok_def
      DaskExecutor_def opt_str_param_def opt_dict_param_def build_dict_def merged_options_def
      base_options_def)



section \<open>Resource requirements\<close>

text \<open>
  C6. \<open>get_dask_resource_requirements\<close> returns the empty mapping when the tag
  \<open>dagster-dask/resource_requirements\<close> is absent; when the tag is present it returns
  exactly what the JSON decoder makes of the payload, and a decoding error is raised when
  the payload is malformed.
\<close>

theorem resource_requirements:
  "(map_of step_tags DASK_RESOURCE_REQUIREMENTS_KEY = None \<longrightarrow>
      get_dask_resource_requirements loads step_tags = Inr (PyDict [])) \<and>
   (\<forall>req_str payload. map_of step_tags DASK_RESOURCE_REQUIREMENTS_KEY = Some req_str \<and>
      loads req_str = Some payload \<longrightarrow>
      get_dask_resource_requirements loads step_tags = Inr payload) \<and>
   (\<forall>req_str. map_of step_tags DASK_RESOURCE_REQUIREMENTS_KEY = Some req_str \<and>
      loads req_str = None \<longrightarrow>
      get_dask_resource_requirements loads step_tags = Inl (JSONDecodeError req_str))"
  by (simp add: get_dask_resource_requirements_def)

theorem resource_requirements_witness:
  "get_dask_resource_requirements example_loads [(''dagster/priority'', ''3'')] =
     Inr (PyDict []) \<and>
   get_dask_resource_requirements example_loads
     [(''dagster-dask/resource_requirements'', ''{\"GPU\": 1}'')] =
     Inr (PyDict [(''GPU'', PyInt 1)]) \<and>
   get_dask_resource_requirements example_loads
     [(''dagster-dask/resource_requirements'', ''{GPU'')] = Inl (JSONDecodeError ''{GPU'')"
  using resource_requirements [of "[(''dagster/priority'', ''3'')]" example_loads]
    resource_requirements
      [of "[(''dagster-dask/resource_requirements'', ''{\"GPU\": 1}'')]" example_loads]
    resource_requirements [of "[(''dagster-dask/resource_requirements'', ''{GPU'')]" example_loads]
  by (simp add: example_loads_def DASK_RESOURCE_REQUIREMENTS_KEY_def)

section \<open>Cluster options\<close>

text \<open>
  C3, as the code has it. A key the user supplies keeps the user's value in the result of
  \<open>build_dict\<close>, whatever the default for it (the \<open>name\<close> of a yarn, kube or pbs
  cluster), with one exception: for a local cluster without an \<open>address\<close>,
  \<open>threads_per_worker\<close> is set to 1 after the merge, whatever the user supplied.
\<close>

theorem build_dict_user_keys:
  assumes "distinct (map fst (cluster_configuration self))"
    and "(k, v) \<in> set (cluster_configuration self)"
  shows "(k \<noteq> ''threads_per_worker'' \<or> cluster_type self \<noteq> ''local'' \<or>
            map_of (merged_options self pipeline_name) ''address'' \<noteq> None \<longrightarrow>
          map_of (build_dict self pipeline_name) k = Some v) \<and>
         (cluster_type self = ''local'' \<and>
            map_of (merged_options self pipeline_name) ''address'' = None \<longrightarrow>
          map_of (build_dict self pipeline_name) ''threads_per_worker'' = Some (PyInt 1))"
  using merged_options_user [OF assms, of pipeline_name]
  by (auto simp: build_dict_def Let_def AList.update_conv')

theorem build_dict_user_keys_witness:
  "distinct (map fst [(''name'', PyStr ''mine''), (''n_workers'', PyInt 2)]) \<and>
   map_of (build_dict
       \<lparr>cluster_type = ''yarn'',
        cluster_configuration = [(''name'', PyStr ''mine''), (''n_workers'', PyInt 2)]\<rparr>
       ''pipeline'') ''name'' = Some (PyStr ''mine'') \<and>
   map_of (build_dict
       \<lparr>cluster_type = ''local'', cluster_configuration = [(''threads_per_worker'', PyInt 4)]\<rparr>
       ''pipeline'') ''threads_per_worker'' = Some (PyInt 1)"
  using build_dict_user_keys
      [of "\<lparr>cluster_type = ''yarn'',
            cluster_configuration = [(''name'', PyStr ''mine''), (''n_workers'', PyInt 2)]\<rparr>"
          "''name''" "PyStr ''mine''" "''pipeline''"]
    build_dict_user_keys
      [of "\<lparr>cluster_type = ''local'',
            cluster_configuration = [(''threads_per_worker'', PyInt 4)]\<rparr>"
          "''threads_per_worker''" "PyInt 4" "''pipeline''"]
  by (simp add: merged_options_def base_options_def)

text \<open>
  The claim C3 as written fails: a local cluster configured with
  \<open>threads_per_worker = 4\<close> is built with \<open>threads_per_worker = 1\<close>.
\<close>

theorem build_dict_override_counterexample:
  "(''threads_per_worker'', PyInt 4) \<in>
     set (cluster_configuration
       \<lparr>cluster_type = ''local'', cluster_configuration = [(''threads_per_worker'', PyInt 4)]\<rparr>) \<and>
   map_of (build_dict
       \<lparr>cluster_type = ''local'', cluster_configuration = [(''threads_per_worker'', PyInt 4)]\<rparr>
       ''pipeline'') ''threads_per_worker'' = Some (PyInt 1)"
  by (simp add: build_dict_def merged_options_def base_options_def)

text \<open>
  C4. For the local cluster type: when the merged options have no \<open>address\<close>, the
  result of \<open>build_dict\<close> has \<open>threads_per_worker = 1\<close>; when they have one, the
  result is the merged options, with nothing added. The merged options of a local cluster
  have the keys of the user's configuration.
\<close>

theorem build_dict_local:
  assumes "cluster_type self = ''local''"
  shows "(map_of (merged_options self pipeline_name) ''address'' = None \<longrightarrow>
            map_of (build_dict self pipeline_name) ''threads_per_worker'' = Some (PyInt 1)) \<and>
         (map_of (merged_options self pipeline_name) ''address'' \<noteq> None \<longrightarrow>
            build_dict self pipeline_name = merged_options self pipeline_name) \<and>
         fst ` set (merged_options self pipeline_name) =
           fst ` set (cluster_configuration self)"
  using assms merged_options_local [OF assms, of pipeline_name]
  by (auto simp: build_dict_def Let_def AList.update_conv')

theorem build_dict_local_witness:
  "map_of (build_dict \<lparr>cluster_type = ''local'', cluster_configuration = [(''n_workers'', PyInt 2)]\<rparr>
       ''pipeline'') ''threads_per_worker'' = Some (PyInt 1) \<and>
   build_dict
       \<lparr>cluster_type = ''local'',
        cluster_configuration = [(''address'', PyStr ''127.0.0.1:8786'')]\<rparr> ''pipeline'' =
     [(''address'', PyStr ''127.0.0.1:8786'')]"
  using build_dict_local
      [of "\<lparr>cluster_type = ''local'', cluster_configuration = [(''n_workers'', PyInt 2)]\<rparr>"
          "''pipeline''"]
    build_dict_local
      [of "\<lparr>cluster_type = ''local'',
            cluster_configuration = [(''address'', PyStr ''127.0.0.1:8786'')]\<rparr>"
          "''pipeline''"]
  by (simp add: merged_options_def base_options_def)

text \<open>
  C10. \<open>DaskExecutor(None, None)\<close> has the cluster type \<open>local\<close> and an empty
  configuration; its options are \<open>threads_per_worker = 1\<close> alone, and they are what
  the local cluster is constructed with, as the first action of a run that passes the
  checks and whose cluster comes up.
\<close>

theorem default_executor:
  "DaskExecutor None None = \<lparr>cluster_type = ''local'', cluster_configuration = []\<rparr> \<and>
   build_dict (DaskExecutor None None) pipeline_name = [(''threads_per_worker'', PyInt 1)] \<and>
   provision_cluster env (DaskExecutor None None) pipeline_name =
     construct env LocalCluster [(''threads_per_worker'', PyInt 1)] \<and>
   fst (execute env (DaskExecutor None None) ctx step_levels) =
     (if checks ctx = None \<and> cluster_raises env = None
      then Provision LocalCluster [(''threads_per_worker'', PyInt 1)] #
             fst (with_client env ctx step_levels)
      else [])"
  by (auto simp: DaskExecutor_def opt_str_param_def opt_dict_param_def build_dict_def
      merged_options_def base_options_def provision_cluster_def construct_def execute_def
      split: option.splits prod.splits)

section \<open>Submission in the order of the levels\<close>

text \<open>
  C1. For a plan whose steps depend only on steps of strictly earlier levels, the
  submission loop never fails on a dependency lookup: no \<open>KeyError\<close> is raised. The
  futures it creates, whether the pass completes or stops at a tag that does not decode,
  are those of the first steps of the plan in the plan's order, and each future's
  dependencies are futures created before it, namely those recorded for the step's
  dependency keys. A pass that ends without an error has created a future for every
  step, and the pass does end without an error when every step's tag decodes.
\<close>

theorem submission_respects_levels:
  assumes "valid_plan step_levels"
    and "submit_levels env ctx step_levels no_futures = (st, err)"
  shows "(\<forall>k. err \<noteq> Some (KeyError k)) \<and>
         submitted_in_order (pipeline_def_name ctx) [] (concat step_levels)
           (execution_futures st) \<and>
         (err = None \<longrightarrow> length (execution_futures st) = length (concat step_levels)) \<and>
         ((\<forall>step \<in> set (concat step_levels).
             \<exists>res. get_dask_resource_requirements (json_loads env) (tags step) = Inr res) \<longrightarrow>
          err = None)"
proof -
  from assms(2) have flat: "submit_level env ctx (concat step_levels) no_futures = (st, err)"
    by (simp add: submit_levels_concat)
  from assms(1) have known: "deps_known (fst ` set (execution_futures_dict no_futures))
      (concat step_levels)"
    using valid_levels_deps_known [of "[]" step_levels] by (simp add: valid_plan_def no_futures_def)
  have failing: "\<exists>s \<in> set (concat step_levels).
      get_dask_resource_requirements (json_loads env) (tags s) = Inl e" if "err = Some e" for e
    using submit_level_error [OF known] flat that by simp
  have "futures_recorded no_futures"
    by (simp add: futures_recorded_def no_futures_def)
  from submit_level_in_order [OF this flat]
  have order: "submitted_in_order (pipeline_def_name ctx) [] (concat step_levels)
      (execution_futures st)"
    and full: "err = None \<longrightarrow> length (execution_futures st) = length (concat step_levels)"
    by (auto simp: no_futures_def)
  have "err \<noteq> Some (KeyError k)" for k
    using failing [of "KeyError k"] requirements_error by fastforce
  moreover have "err = None"
    if "\<forall>step \<in> set (concat step_levels).
          \<exists>res. get_dask_resource_requirements (json_loads env) (tags step) = Inr res"
  proof (cases err)
    case None
    then show ?thesis .
  next
    case (Some e)
    from failing [OF this] obtain s where s: "s \<in> set (concat step_levels)"
      and bad: "get_dask_resource_requirements (json_loads env) (tags s) = Inl e"
      by blast
    from that s obtain res
      where "get_dask_resource_requirements (json_loads env) (tags s) = Inr res"
      by blast
    with bad show ?thesis by simp
  qed
  ultimately show ?thesis using order full by blast
qed

theorem submission_respects_levels_witness:
  "valid_plan example_plan \<and>
   submit_levels example_env example_context example_plan no_futures =
     (\<lparr>execution_futures = [future_A, future_B, future_C],
       execution_futures_dict = [(''A'', future_A), (''B'', future_B), (''C'', future_C)]\<rparr>,
      None) \<and>
   submitted_in_order ''pipeline'' [] [step_A, step_B, step_C] [future_A, future_B, future_C]"
  using submission_respects_levels
    [of example_plan example_env example_context
      "\<lparr>execution_futures = [future_A, future_B, future_C],
        execution_futures_dict = [(''A'', future_A), (''B'', future_B), (''C'', future_C)]\<rparr>"
      None]
    example_submission
  by (simp add: valid_plan_def example_plan_def step_A_def step_B_def step_C_def
      step_dependency_keys_def example_context_def)

text \<open>
  C8. After a full submission pass over a plan with unique step keys, which a valid plan
  has, the dictionary of futures has the keys of the plan's steps, each once and in
  the plan's order, and its values are the futures of the worklist in the same order: the
  future under a step's key is the one created for that step.
\<close>

theorem every_step_key_recorded_once:
  assumes "unique_step_keys step_levels"
    and "submit_levels env ctx step_levels no_futures = (st, None)"
  shows "map fst (execution_futures_dict st) = map key (concat step_levels) \<and>
         distinct (map fst (execution_futures_dict st)) \<and>
         map snd (execution_futures_dict st) = execution_futures st \<and>
         length (execution_futures st) = length (concat step_levels) \<and>
         submitted_in_order (pipeline_def_name ctx) [] (concat step_levels)
           (execution_futures st)"
proof -
  from assms(2) have flat: "submit_level env ctx (concat step_levels) no_futures = (st, None)"
    by (simp add: submit_levels_concat)
  from assms(1) have unique: "distinct (map key (concat step_levels))"
    by (simp add: unique_step_keys_def)
  have "key ` set (concat step_levels) \<inter> fst ` set (execution_futures_dict no_futures) = {}"
    by (simp add: no_futures_def)
  from submit_level_dict [OF unique this flat]
  have len: "length (execution_futures st) = length (concat step_levels)"
    and dict: "execution_futures_dict st =
      zip (map key (concat step_levels)) (execution_futures st)"
    by (auto simp: no_futures_def)
  have "futures_recorded no_futures"
    by (simp add: futures_recorded_def no_futures_def)
  from submit_level_in_order [OF this flat]
  have order: "submitted_in_order (pipeline_def_name ctx) [] (concat step_levels)
      (execution_futures st)"
    by (auto simp: no_futures_def)
  from len dict unique order show ?thesis by simp
qed

theorem every_step_key_recorded_once_witness:
  "unique_step_keys example_plan \<and>
   submit_levels example_env example_context example_plan no_futures =
     (\<lparr>execution_futures = [future_A, future_B, future_C],
       execution_futures_dict = [(''A'', future_A), (''B'', future_B), (''C'', future_C)]\<rparr>,
      None) \<and>
   map fst [(''A'', future_A), (''B'', future_B), (''C'', future_C)] =
     map key (concat example_plan) \<and>
   map snd [(''A'', future_A), (''B'', future_B), (''C'', future_C)] =
     [future_A, future_B, future_C]"
  using every_step_key_recorded_once
    [of example_plan example_env example_context
      "\<lparr>execution_futures = [future_A, future_B, future_C],
        execution_futures_dict = [(''A'', future_A), (''B'', future_B), (''C'', future_C)]\<rparr>"]
    example_submission
  by (simp add: unique_step_keys_def example_plan_def step_A_def step_B_def step_C_def)

section \<open>Failure while draining\<close>

text \<open>
  C2. In a run that has passed the checks and entered the client, and whose submission
  pass is complete: when the futures complete in the order \<open>finished\<close>, \<open>failed\<close>, \<open>pending\<close>,
  those of \<open>finished\<close> resolve to events and \<open>failed\<close> resolves to a failure, the run
  awaits \<open>finished\<close> and yields their events, awaits \<open>failed\<close>, and ends with that
  failure: nothing of \<open>pending\<close> is awaited or yielded, and the events yielded before
  stay in the output.
\<close>

theorem failure_stops_draining:
  assumes "checks ctx = None"
    and "provision_cluster env self (pipeline_def_name ctx) = Inr cluster"
    and "client_raises env = None"
    and "submit_levels env ctx step_levels no_futures = (st, None)"
    and "as_completed env (execution_futures st) = finished @ failed # pending"
    and "\<forall>f \<in> set finished. \<exists>step_events. future_result env f = Inr step_events"
    and "future_result env failed = Inl e"
  shows "drain env (finished @ failed # pending) =
           (concat (map (\<lambda>f. Await f # map Yield (events_of env f)) finished) @ [Await failed],
            Some e) \<and>
         execute env self ctx step_levels =
           (cluster # ClientEnter # map Submit (execution_futures st) @
              concat (map (\<lambda>f. Await f # map Yield (events_of env f)) finished) @
              [Await failed, ClientExit],
            Some e)"
proof -
  have d: "drain env (finished @ failed # pending) =
      (concat (map (\<lambda>f. Await f # map Yield (events_of env f)) finished) @ [Await failed], Some e)"
    using drain_finished [OF assms(6), of "failed # pending"] assms(7) by simp
  with assms(1-5) show ?thesis
    by (simp add: execute_def with_client_def)
qed

theorem failure_stops_draining_witness:
  "checks example_context = None \<and>
   future_result example_env future_A = Inr [DagsterEvent ''STEP_SUCCESS'' ''A''] \<and>
   future_result example_env future_B = Inl (RemoteError ''B failed'') \<and>
   execute example_env (DaskExecutor None None) example_context example_plan =
     ([Provision LocalCluster [(''threads_per_worker'', PyInt 1)], ClientEnter,
       Submit future_A, Submit future_B, Submit future_C,
       Await future_A, Yield (DagsterEvent ''STEP_SUCCESS'' ''A''), Await future_B,
       ClientExit],
      Some (RemoteError ''B failed''))"
  using failure_stops_draining
    [where ctx = example_context and self = "DaskExecutor None None"
      and cluster = "Provision LocalCluster [(''threads_per_worker'', PyInt 1)]"
      and env = example_env and step_levels = example_plan
      and st = "\<lparr>execution_futures = [future_A, future_B, future_C],
        execution_futures_dict = [(''A'', future_A), (''B'', future_B), (''C'', future_C)]\<rparr>"
      and finished = "[future_A]" and failed = future_B and pending = "[future_C]"
      and e = "RemoteError ''B failed''"]
    example_submission example_results example_checks
  by (simp add: events_of_def)

section \<open>The checks and the cluster type\<close>

text \<open>
  C5, at a run configuration with no storage section and in-memory storage, in the context
  of the executor that runs: the run ends before anything is provisioned or submitted,
  but with the \<open>AttributeError\<close> of \<open>storage.keys()\<close> on \<open>None\<close>, not with the
  invariant failure that the check after it would raise.
\<close>

theorem missing_storage_attribute_error:
  "execute env self
     \<lparr>executor = DaskExecutorObject self,
      run_config = [(''execution'', PyDict [(''dask'', PyDict [])])],
      instance_is_persistent = True,
      system_storage_is_persistent = False,
      pipeline_def_name = ''pipeline'',
      repository_name = ''repo'',
      mode_name = ''default'',
      run_id = ''run-1''\<rparr> step_levels =
   ([], Some (AttributeError ''keys''))"
  by (simp add: execute_def checks_def executor_check_def storage_checks_def)




section \<open>The cluster and the client session\<close>




end
